theory Spec2Isabelle
  imports Main
begin

section \<open>FunctionBuffer.hpp: a callable stored in a local buffer\<close>

text \<open>
  The header defines \<^verbatim>\<open>FunctionBuffer<R(Args...)>\<close>: a 40-byte array \<^verbatim>\<open>m_buffer\<close>, a
  pointer \<^verbatim>\<open>m_func\<close> to the \<^verbatim>\<open>FunctionConcept\<close> living in that array (or null), and
  the adapter \<^verbatim>\<open>FunctionModel<F>\<close> with its single member \<^verbatim>\<open>F m_functor\<close>.

  The embedding keeps the memory the code manipulates explicit. Every FunctionBuffer object
  lives at an address of a store, so that \<^verbatim>\<open>this\<close> and \<^verbatim>\<open>other\<close> may alias; a pointer
  is an address together with an offset into that object's array; the array is a list of
  bytes, each byte either indeterminate or the i-th byte of the object representation of
  an adapter. Type parameters: \<open>'s\<close> the data a callable captures, \<open>'h\<close> the rest of the
  program's state that a callable may read and write, \<open>'a\<close> the argument pack \<^verbatim>\<open>Args...\<close>,
  \<open>'r\<close> the result type \<^verbatim>\<open>R\<close>.
\<close>

subsection \<open>Configuration\<close>

definition MAX_BUFFER_SIZE :: nat where
  "MAX_BUFFER_SIZE = 40"

subsection \<open>Callables, exceptions and the effect trace\<close>

text \<open>
  What a C++ callable may throw. \<^verbatim>\<open>std::runtime_error\<close> carries its message; every other
  exception type is kept by name.
\<close>

datatype exn = runtime_error string | other_exception string

text \<open>
  Special member functions of the callable type \<^verbatim>\<open>F\<close> that run, in program order. The
  number after each event is the identity of the callable value it ran on.
\<close>

datatype event = Move_constructed nat | Copy_constructed nat | Destroyed nat

text \<open>
  A value of a callable type \<^verbatim>\<open>F\<close>: its identity, \<^verbatim>\<open>sizeof(FunctionModel<F>)\<close>, the
  captured data, \<^verbatim>\<open>F::operator()\<close> (which may change the captured data and the program
  state, and may throw) and \<^verbatim>\<open>F::~F()\<close>. The captured data are the bytes of the
  object, so copying the bytes copies them; what a callable owns outside its bytes (a heap
  block behind a captured pointer, say) is part of the program state \<open>'h\<close>, which its
  destructor may change. Every C++ object has a positive size; the theorems below ask for
  \<open>0 < sizeof_model f\<close> where they place an object.
\<close>

record ('s, 'h, 'a, 'r) callable =
  ident :: nat
  sizeof_model :: nat
  captured :: 's
  call_op :: "'s \<Rightarrow> 'a \<Rightarrow> 'h \<Rightarrow> (exn + 'r) \<times> 's \<times> 'h"
  dtor_op :: "'s \<Rightarrow> 'h \<Rightarrow> 'h"

text \<open>The direct call \<^verbatim>\<open>f(a)\<close>.\<close>

definition invoke ::
  "('s, 'h, 'a, 'r) callable \<Rightarrow> 'a \<Rightarrow> 'h \<Rightarrow> (exn + 'r) \<times> ('s, 'h, 'a, 'r) callable \<times> 'h" where
  "invoke f a h =
     (case call_op f (captured f) a h of (res, s', h') \<Rightarrow> (res, f\<lparr>captured := s'\<rparr>, h'))"

subsection \<open>The adapter and the bytes of the buffer\<close>

type_synonym addr = nat

type_synonym ptr = "addr \<times> nat"

text \<open>
  \<^verbatim>\<open>FunctionModel<F>\<close> has the member \<^verbatim>\<open>F m_functor\<close>. The constructor of FunctionBuffer
  instantiates it with the deduced \<^verbatim>\<open>T\<close> of its forwarding reference \<^verbatim>\<open>T&&\<close>: for an
  rvalue of type \<^verbatim>\<open>L\<close> that is \<^verbatim>\<open>FunctionModel<L>\<close>, whose member is an \<^verbatim>\<open>L\<close>; for an
  lvalue it is \<^verbatim>\<open>FunctionModel<L&>\<close>, whose member is the reference \<^verbatim>\<open>L& m_functor\<close> to
  the caller's object.
\<close>

datatype ('s, 'h, 'a, 'r) FunctionModel =
  By_value "('s, 'h, 'a, 'r) callable"
| By_reference addr

text \<open>The argument \<^verbatim>\<open>func\<close> as it binds to \<^verbatim>\<open>T&&\<close>.\<close>

datatype ('s, 'h, 'a, 'r) arg =
  Rvalue "('s, 'h, 'a, 'r) callable"
| Lvalue addr

text \<open>
  \<^verbatim>\<open>sizeof(FunctionModel<L&>)\<close>: the vtable pointer and the reference, eight bytes each on
  the 64-bit targets this header is built for.
\<close>

definition sizeof_ref_model :: nat where
  "sizeof_ref_model = 16"

fun sizeof_FunctionModel :: "('s, 'h, 'a, 'r) FunctionModel \<Rightarrow> nat" where
  "sizeof_FunctionModel (By_value f) = sizeof_model f"
| "sizeof_FunctionModel (By_reference p) = sizeof_ref_model"

text \<open>\<^verbatim>\<open>sizeof(FunctionModel<T>)\<close> for the \<^verbatim>\<open>T\<close> deduced from the argument.\<close>

fun sizeof_FunctionModel_T :: "('s, 'h, 'a, 'r) arg \<Rightarrow> nat" where
  "sizeof_FunctionModel_T (Rvalue f) = sizeof_model f"
| "sizeof_FunctionModel_T (Lvalue p) = sizeof_ref_model"

datatype ('s, 'h, 'a, 'r) mem_byte =
  Indeterminate
| Repr "('s, 'h, 'a, 'r) FunctionModel" nat

definition object_repr :: "('s, 'h, 'a, 'r) FunctionModel \<Rightarrow> ('s, 'h, 'a, 'r) mem_byte list" where
  "object_repr m = map (Repr m) [0..<sizeof_FunctionModel m]"

text \<open>
  What can go wrong outside the exceptions of C++: a translation unit that does not
  compile (a failed static assertion, an ill-formed initialiser), and the three ways the
  operations below can leave defined behaviour.
\<close>

datatype failure =
  static_assert_failed string
| ill_formed string
| buffer_overrun
| no_object
| dangling_reference

definition bind_r :: "failure + 'x \<Rightarrow> ('x \<Rightarrow> failure + 'y) \<Rightarrow> failure + 'y" where
  "bind_r x k = (case x of Inl e \<Rightarrow> Inl e | Inr v \<Rightarrow> k v)"

text \<open>Writing an object at an offset of an array, and reading the object that starts there.\<close>

definition write_repr ::
  "('s, 'h, 'a, 'r) mem_byte list \<Rightarrow> nat \<Rightarrow> ('s, 'h, 'a, 'r) FunctionModel
     \<Rightarrow> failure + ('s, 'h, 'a, 'r) mem_byte list" where
  "write_repr buf off m =
     (if off + sizeof_FunctionModel m \<le> length buf
      then Inr (take off buf @ object_repr m @ drop (off + sizeof_FunctionModel m) buf)
      else Inl buffer_overrun)"

definition read_repr ::
  "('s, 'h, 'a, 'r) mem_byte list \<Rightarrow> nat \<Rightarrow> failure + ('s, 'h, 'a, 'r) FunctionModel" where
  "read_repr buf off =
     (case drop off buf of
        [] \<Rightarrow> Inl no_object
      | b # _ \<Rightarrow>
          (case b of
             Indeterminate \<Rightarrow> Inl no_object
           | Repr m i \<Rightarrow>
               if 0 < sizeof_FunctionModel m
                  \<and> take (sizeof_FunctionModel m) (drop off buf) = object_repr m
               then Inr m else Inl no_object))"

text \<open>
  \<^verbatim>\<open>std::copy(src, src + n, dst)\<close> on arrays of at least \<open>n\<close> elements. The source is
  read before the destination is written, so copying an array onto itself leaves it as
  it is.
\<close>

definition std_copy :: "'x list \<Rightarrow> nat \<Rightarrow> 'x list \<Rightarrow> 'x list" where
  "std_copy src n dst = take n src @ drop n dst"

subsection \<open>The program state\<close>

record ('s, 'h, 'a, 'r) FunctionBuffer =
  m_buffer :: "('s, 'h, 'a, 'r) mem_byte list"
  m_func :: "ptr option"

record ('s, 'h, 'a, 'r) world =
  env :: 'h
  objs :: "addr \<Rightarrow> ('s, 'h, 'a, 'r) callable option"
  bufs :: "addr \<Rightarrow> ('s, 'h, 'a, 'r) FunctionBuffer"
  trace :: "event list"

text \<open>\<^verbatim>\<open>void * const buffer_address = reinterpret_cast<void*>(m_buffer)\<close>.\<close>

definition buffer_address :: "addr \<Rightarrow> ptr" where
  "buffer_address this = (this, 0)"

definition set_m_func ::
  "addr \<Rightarrow> ptr option \<Rightarrow> ('s, 'h, 'a, 'r) world \<Rightarrow> ('s, 'h, 'a, 'r) world" where
  "set_m_func this p w = w\<lparr>bufs := (bufs w)(this := (bufs w this)\<lparr>m_func := p\<rparr>)\<rparr>"

definition set_m_buffer ::
  "addr \<Rightarrow> ('s, 'h, 'a, 'r) mem_byte list \<Rightarrow> ('s, 'h, 'a, 'r) world \<Rightarrow> ('s, 'h, 'a, 'r) world" where
  "set_m_buffer this bs w = w\<lparr>bufs := (bufs w)(this := (bufs w this)\<lparr>m_buffer := bs\<rparr>)\<rparr>"

definition load_object ::
  "('s, 'h, 'a, 'r) world \<Rightarrow> ptr \<Rightarrow> failure + ('s, 'h, 'a, 'r) FunctionModel" where
  "load_object w p = read_repr (m_buffer (bufs w (fst p))) (snd p)"

definition store_object ::
  "ptr \<Rightarrow> ('s, 'h, 'a, 'r) FunctionModel \<Rightarrow> ('s, 'h, 'a, 'r) world
     \<Rightarrow> failure + ('s, 'h, 'a, 'r) world" where
  "store_object p m w =
     (case write_repr (m_buffer (bufs w (fst p))) (snd p) m of
        Inl e \<Rightarrow> Inl e
      | Inr bs \<Rightarrow> Inr (set_m_buffer (fst p) bs w))"

subsection \<open>FunctionModel\<close>

text \<open>
  \<^verbatim>\<open>FunctionModel(G&& func) : m_functor{std::forward<G>(func)}\<close>. An rvalue is moved into
  the member; for an lvalue the member is a reference and binding it runs no constructor.
\<close>

fun FunctionModel_ctor ::
  "('s, 'h, 'a, 'r) arg \<Rightarrow> ('s, 'h, 'a, 'r) world
     \<Rightarrow> ('s, 'h, 'a, 'r) FunctionModel \<times> ('s, 'h, 'a, 'r) world" where
  "FunctionModel_ctor (Rvalue f) w =
     (By_value f, w\<lparr>trace := trace w @ [Move_constructed (ident f)]\<rparr>)"
| "FunctionModel_ctor (Lvalue p) w = (By_reference p, w)"

text \<open>\<^verbatim>\<open>R operator()(Args&&... args) { return m_functor(std::forward<Args>(args)...); }\<close>\<close>

fun FunctionModel_call ::
  "('s, 'h, 'a, 'r) FunctionModel \<Rightarrow> 'a \<Rightarrow> ('s, 'h, 'a, 'r) world
     \<Rightarrow> failure + ((exn + 'r) \<times> ('s, 'h, 'a, 'r) FunctionModel \<times> ('s, 'h, 'a, 'r) world)" where
  "FunctionModel_call (By_value f) a w =
     (case invoke f a (env w) of
        (res, f', h') \<Rightarrow> Inr (res, By_value f', w\<lparr>env := h'\<rparr>))"
| "FunctionModel_call (By_reference p) a w =
     (case objs w p of
        None \<Rightarrow> Inl dangling_reference
      | Some f \<Rightarrow>
          (case invoke f a (env w) of
             (res, f', h') \<Rightarrow>
               Inr (res, By_reference p, w\<lparr>env := h', objs := (objs w)(p := Some f')\<rparr>)))"

text \<open>
  The implicit \<^verbatim>\<open>~FunctionModel()\<close>, reached through the virtual \<^verbatim>\<open>~FunctionConcept()\<close>:
  it destroys the member. Destroying a reference member destroys nothing.
\<close>

fun FunctionModel_dtor ::
  "('s, 'h, 'a, 'r) FunctionModel \<Rightarrow> ('s, 'h, 'a, 'r) world \<Rightarrow> ('s, 'h, 'a, 'r) world" where
  "FunctionModel_dtor (By_value f) w =
     w\<lparr>env := dtor_op f (captured f) (env w), trace := trace w @ [Destroyed (ident f)]\<rparr>"
| "FunctionModel_dtor (By_reference p) w = w"

subsection \<open>Expressions on the handle\<close>

text \<open>\<^verbatim>\<open>new(buffer_address) FunctionModel<T>(std::forward<T>(func))\<close>\<close>

definition placement_new ::
  "ptr \<Rightarrow> ('s, 'h, 'a, 'r) arg \<Rightarrow> ('s, 'h, 'a, 'r) world
     \<Rightarrow> failure + (ptr \<times> ('s, 'h, 'a, 'r) world)" where
  "placement_new p func w =
     (case FunctionModel_ctor func w of
        (m, w1) \<Rightarrow> bind_r (store_object p m w1) (\<lambda>w2. Inr (p, w2)))"

text \<open>\<^verbatim>\<open>m_func->~FunctionConcept()\<close>\<close>

definition virtual_dtor ::
  "ptr \<Rightarrow> ('s, 'h, 'a, 'r) world \<Rightarrow> failure + ('s, 'h, 'a, 'r) world" where
  "virtual_dtor p w = bind_r (load_object w p) (\<lambda>m. Inr (FunctionModel_dtor m w))"

text \<open>\<^verbatim>\<open>(*m_func)(std::forward<Args>(args)...)\<close>; the callee works on the object in place.\<close>

definition virtual_call ::
  "ptr \<Rightarrow> 'a \<Rightarrow> ('s, 'h, 'a, 'r) world
     \<Rightarrow> failure + ((exn + 'r) \<times> ('s, 'h, 'a, 'r) world)" where
  "virtual_call p a w =
     bind_r (load_object w p) (\<lambda>m.
     bind_r (FunctionModel_call m a w) (\<lambda>(res, m', w1).
     bind_r (store_object p m' w1) (\<lambda>w2. Inr (res, w2))))"

subsection \<open>FunctionBuffer\<close>

text \<open>The storage of a FunctionBuffer before any member is initialised.\<close>

definition raw_storage :: "('s, 'h, 'a, 'r) FunctionBuffer" where
  "raw_storage = \<lparr>m_buffer = replicate MAX_BUFFER_SIZE Indeterminate, m_func = None\<rparr>"

text \<open>
  \<^verbatim>\<open>template<typename T> FunctionBuffer(T&& func)\<close>, lines 100 to 104. The static
  assertion is evaluated when the constructor is instantiated, so a failing assertion leaves
  no program to run.
\<close>

definition FunctionBuffer_ctor ::
  "addr \<Rightarrow> ('s, 'h, 'a, 'r) arg \<Rightarrow> ('s, 'h, 'a, 'r) world \<Rightarrow> failure + ('s, 'h, 'a, 'r) world" where
  "FunctionBuffer_ctor this func w =
     (if \<not> sizeof_FunctionModel_T func \<le> MAX_BUFFER_SIZE
      then Inl (static_assert_failed ''The object won't fit in this buffer!'')
      else
        bind_r (placement_new (buffer_address this) func (w\<lparr>bufs := (bufs w)(this := raw_storage)\<rparr>))
          (\<lambda>(p, w1). Inr (set_m_func this (Some p) w1)))"

text \<open>\<^verbatim>\<open>template<typename T> FunctionBuffer& operator=(T&& func)\<close>, lines 107 to 116.\<close>

definition FunctionBuffer_assign ::
  "addr \<Rightarrow> ('s, 'h, 'a, 'r) arg \<Rightarrow> ('s, 'h, 'a, 'r) world \<Rightarrow> failure + ('s, 'h, 'a, 'r) world" where
  "FunctionBuffer_assign this func w =
     bind_r (case m_func (bufs w this) of
               None \<Rightarrow> Inr w
             | Some p \<Rightarrow> virtual_dtor p w) (\<lambda>w1.
     bind_r (placement_new (buffer_address this) func w1) (\<lambda>(p, w2).
     Inr (set_m_func this (Some p) w2)))"

text \<open>\<^verbatim>\<open>R operator()(Args&&... args)\<close>, lines 119 to 125.\<close>

definition FunctionBuffer_call ::
  "addr \<Rightarrow> 'a \<Rightarrow> ('s, 'h, 'a, 'r) world \<Rightarrow> failure + ((exn + 'r) \<times> ('s, 'h, 'a, 'r) world)" where
  "FunctionBuffer_call this a w =
     (case m_func (bufs w this) of
        None \<Rightarrow> Inr (Inl (runtime_error ''The function buffer is empty!''), w)
      | Some p \<Rightarrow> virtual_call p a w)"

text \<open>\<^verbatim>\<open>~FunctionBuffer()\<close>, lines 128 to 133.\<close>

definition FunctionBuffer_dtor ::
  "addr \<Rightarrow> ('s, 'h, 'a, 'r) world \<Rightarrow> failure + ('s, 'h, 'a, 'r) world" where
  "FunctionBuffer_dtor this w =
     (case m_func (bufs w this) of
        None \<Rightarrow> Inr w
      | Some p \<Rightarrow> virtual_dtor p w)"

text \<open>
  \<^verbatim>\<open>FunctionBuffer(const FunctionBuffer& other) : m_buffer{other.m_buffer}\<close>, lines 136 to
  140. The member initialiser list-initialises the array \<^verbatim>\<open>char m_buffer[40]\<close> from the
  single expression \<^verbatim>\<open>other.m_buffer\<close> of type \<^verbatim>\<open>const char[40]\<close>: that initialises
  element 0, a \<^verbatim>\<open>char\<close>, from the decayed \<^verbatim>\<open>const char*\<close>, and there is no such
  conversion. The constructor is ill-formed as soon as it is instantiated, so no program
  runs its body. (Only a const source selects this constructor or the copy assignment
  operator below: for a non-const FunctionBuffer lvalue the templated overloads with
  \<^verbatim>\<open>T = FunctionBuffer&\<close> are the better match.)
\<close>

definition FunctionBuffer_copy_ctor ::
  "addr \<Rightarrow> addr \<Rightarrow> ('s, 'h, 'a, 'r) world \<Rightarrow> failure + ('s, 'h, 'a, 'r) world" where
  "FunctionBuffer_copy_ctor this other w = Inl (ill_formed ''m_buffer{other.m_buffer}'')"

text \<open>\<^verbatim>\<open>FunctionBuffer& operator=(const FunctionBuffer& other)\<close>, lines 143 to 156.\<close>

definition FunctionBuffer_copy_assign ::
  "addr \<Rightarrow> addr \<Rightarrow> ('s, 'h, 'a, 'r) world \<Rightarrow> failure + ('s, 'h, 'a, 'r) world" where
  "FunctionBuffer_copy_assign this other w =
     bind_r (case m_func (bufs w this) of
               None \<Rightarrow> Inr w
             | Some p \<Rightarrow> virtual_dtor p w) (\<lambda>w1.
     let w2 = set_m_buffer this
                (std_copy (m_buffer (bufs w1 other)) MAX_BUFFER_SIZE (m_buffer (bufs w1 this))) w1
     in Inr (set_m_func this (Some (buffer_address this)) w2))"

text \<open>\<^verbatim>\<open>FunctionBuffer(FunctionBuffer&& other)\<close>, lines 159 to 164.\<close>

definition FunctionBuffer_move_ctor ::
  "addr \<Rightarrow> addr \<Rightarrow> ('s, 'h, 'a, 'r) world \<Rightarrow> ('s, 'h, 'a, 'r) world" where
  "FunctionBuffer_move_ctor this other w =
     (let w0 = w\<lparr>bufs := (bufs w)(this := raw_storage)\<rparr>;
          w1 = set_m_buffer this
                 (std_copy (m_buffer (bufs w0 other)) MAX_BUFFER_SIZE (m_buffer (bufs w0 this))) w0;
          w2 = set_m_func this (Some (buffer_address this)) w1
      in set_m_func other None w2)"

text \<open>\<^verbatim>\<open>FunctionBuffer& operator=(FunctionBuffer&& other)\<close>, lines 167 to 176.\<close>

definition FunctionBuffer_move_assign ::
  "addr \<Rightarrow> addr \<Rightarrow> ('s, 'h, 'a, 'r) world \<Rightarrow> failure + ('s, 'h, 'a, 'r) world" where
  "FunctionBuffer_move_assign this other w =
     bind_r (case m_func (bufs w this) of
               None \<Rightarrow> Inr w
             | Some p \<Rightarrow> virtual_dtor p w) (\<lambda>w1.
     let w2 = set_m_buffer this
                (std_copy (m_buffer (bufs w1 other)) MAX_BUFFER_SIZE (m_buffer (bufs w1 this))) w1;
         w3 = set_m_func this (Some (buffer_address this)) w2
     in Inr (set_m_func other None w3))"

text \<open>\<^verbatim>\<open>operator bool() const\<close>, lines 179 to 181.\<close>

definition FunctionBuffer_bool :: "addr \<Rightarrow> ('s, 'h, 'a, 'r) world \<Rightarrow> bool" where
  "FunctionBuffer_bool this w = (m_func (bufs w this) \<noteq> None)"

subsection \<open>Observations and sample callables\<close>

text \<open>The callable an argument denotes: the temporary itself, or the caller's object.\<close>

fun denoted ::
  "('s, 'h, 'a, 'r) world \<Rightarrow> ('s, 'h, 'a, 'r) arg \<Rightarrow> ('s, 'h, 'a, 'r) callable option" where
  "denoted w (Rvalue f) = Some f"
| "denoted w (Lvalue p) = objs w p"

text \<open>What a caller sees of a call: the value or exception, and the program state.\<close>

definition observe ::
  "failure + ((exn + 'r) \<times> ('s, 'h, 'a, 'r) world) \<Rightarrow> failure + ((exn + 'r) \<times> 'h)" where
  "observe x = (case x of Inl e \<Rightarrow> Inl e | Inr (res, w) \<Rightarrow> Inr (res, env w))"

text \<open>
  Sample callables of signature \<^verbatim>\<open>int(int)\<close>. The program state they share is one
  counter. \<open>adder\<close> is the lambda capturing three ints and returning their sum plus the
  argument; \<open>doubler\<close> is \<^verbatim>\<open>[](int x){ return x*2; }\<close>.
\<close>

definition adder :: "(int list, nat, int, int) callable" where
  "adder = \<lparr>ident = 1, sizeof_model = 24, captured = [2, 3, 5],
            call_op = (\<lambda>s x h. (Inr (sum_list s + x), s, h)), dtor_op = (\<lambda>s h. h)\<rparr>"

definition doubler :: "(int list, nat, int, int) callable" where
  "doubler = \<lparr>ident = 2, sizeof_model = 16, captured = [],
              call_op = (\<lambda>s x h. (Inr (x * 2), s, h)), dtor_op = (\<lambda>s h. h)\<rparr>"

definition world0 :: "(int list, nat, int, int) world" where
  "world0 = \<lparr>env = 0, objs = (\<lambda>p. None), bufs = (\<lambda>p. raw_storage), trace = []\<rparr>"

definition thrower :: "(int list, nat, int, int) callable" where
  "thrower = \<lparr>ident = 3, sizeof_model = 16, captured = [],
              call_op = (\<lambda>s x h. (Inl (other_exception ''boom''), s, Suc h)),
              dtor_op = (\<lambda>s h. h)\<rparr>"

text \<open>\<open>world1\<close>: a FunctionBuffer at address 0 constructed from the temporary \<open>adder\<close>.\<close>

definition world1 :: "(int list, nat, int, int) world" where
  "world1 = (case FunctionBuffer_ctor 0 (Rvalue adder) world0 of Inr w \<Rightarrow> w | Inl e \<Rightarrow> world0)"

text \<open>\<open>big\<close>: a callable whose adapter takes 48 bytes.\<close>

definition big :: "(int list, nat, int, int) callable" where
  "big = \<lparr>ident = 4, sizeof_model = 48, captured = [1, 2, 3, 4, 5, 6, 7, 8, 9, 10],
          call_op = (\<lambda>s x h. (Inr (sum_list s + x), s, h)), dtor_op = (\<lambda>s h. h)\<rparr>"

text \<open>\<open>caller_world\<close>: the caller owns the callable object \<open>doubler\<close> at address 7.\<close>

definition caller_world :: "(int list, nat, int, int) world" where
  "caller_world = world0\<lparr>objs := (objs world0)(7 := Some doubler)\<rparr>"

text \<open>\<open>world2\<close>: on top of that, a FunctionBuffer at address 0 constructed from the lvalue.\<close>

definition world2 :: "(int list, nat, int, int) world" where
  "world2 = (case FunctionBuffer_ctor 0 (Lvalue 7) caller_world of
               Inr w \<Rightarrow> w | Inl e \<Rightarrow> caller_world)"

text \<open>The special member functions of the callable that constructing the adapter runs.\<close>

fun ctor_events :: "('s, 'h, 'a, 'r) arg \<Rightarrow> event list" where
  "ctor_events (Rvalue f) = [Move_constructed (ident f)]"
| "ctor_events (Lvalue p) = []"

text \<open>
  What it means for the buffer at \<open>this\<close> in \<open>w'\<close> to be an independent duplicate of the
  buffer at \<open>other\<close> in \<open>w\<close>, which holds the callable \<open>f\<close>: the arrays are equal byte for
  byte; the new handle has the offset of the old one and points into the new array; the
  source is untouched; each of the two, invoked on \<open>a\<close> in \<open>w'\<close>, gives what \<open>f\<close> gives;
  after \<open>this\<close> has been invoked, \<open>other\<close> still gives what \<open>f\<close> with its captured data
  as they were gives; and after the destructor of either has run, the other still gives
  what it gave.
\<close>

definition independent_duplicate ::
  "addr \<Rightarrow> addr \<Rightarrow> 'a \<Rightarrow> ('s, 'h, 'a, 'r) callable \<Rightarrow> ('s, 'h, 'a, 'r) world
     \<Rightarrow> ('s, 'h, 'a, 'r) world \<Rightarrow> bool" where
  "independent_duplicate this other a f w w' \<longleftrightarrow>
     m_buffer (bufs w' this) = m_buffer (bufs w other)
   \<and> map_option snd (m_func (bufs w' this)) = map_option snd (m_func (bufs w other))
   \<and> map_option fst (m_func (bufs w' this)) = Some this
   \<and> bufs w' other = bufs w other
   \<and> observe (FunctionBuffer_call this a w')
       = (case invoke f a (env w') of (res, f', h') \<Rightarrow> Inr (res, h'))
   \<and> observe (FunctionBuffer_call other a w')
       = (case invoke f a (env w') of (res, f', h') \<Rightarrow> Inr (res, h'))
   \<and> (case FunctionBuffer_call this a w' of
         Inl e \<Rightarrow> False
       | Inr (r, w2) \<Rightarrow>
           observe (FunctionBuffer_call other a w2)
             = (case invoke f a (env w2) of (res, f', h') \<Rightarrow> Inr (res, h')))
   \<and> (case FunctionBuffer_dtor this w' of
         Inl e \<Rightarrow> False
       | Inr w2 \<Rightarrow>
           observe (FunctionBuffer_call other a w2) = observe (FunctionBuffer_call other a w'))
   \<and> (case FunctionBuffer_dtor other w' of
         Inl e \<Rightarrow> False
       | Inr w2 \<Rightarrow>
           observe (FunctionBuffer_call this a w2) = observe (FunctionBuffer_call this a w'))"

section \<open>Properties\<close>

subsection \<open>Object representations\<close>

lemma object_repr_Cons:
  "0 < sizeof_FunctionModel m \<Longrightarrow> \<exists>bs. object_repr m = Repr m 0 # bs"
  by (simp add: object_repr_def upt_conv_Cons)

lemma length_object_repr [simp]: "length (object_repr m) = sizeof_FunctionModel m"
  by (simp add: object_repr_def)

lemma read_repr_object:
  assumes "0 < sizeof_FunctionModel m"
  shows "read_repr (object_repr m @ rest) 0 = Inr m"
proof -
  from object_repr_Cons [OF assms] obtain bs where bs: "object_repr m = Repr m 0 # bs" by blast
  have "take (sizeof_FunctionModel m) (object_repr m @ rest) = object_repr m" by simp
  then show ?thesis using assms bs by (simp add: read_repr_def)
qed

lemma write_repr_0:
  "sizeof_FunctionModel m \<le> length buf \<Longrightarrow>
   write_repr buf 0 m = Inr (object_repr m @ drop (sizeof_FunctionModel m) buf)"
  by (simp add: write_repr_def)

lemma read_repr_fits:
  assumes "read_repr buf off = Inr m"
  shows "0 < sizeof_FunctionModel m \<and> off + sizeof_FunctionModel m \<le> length buf"
proof -
  from assms have pos: "0 < sizeof_FunctionModel m"
    and eq: "take (sizeof_FunctionModel m) (drop off buf) = object_repr m"
    by (auto simp: read_repr_def split: list.splits mem_byte.splits if_splits)
  from eq have "length (take (sizeof_FunctionModel m) (drop off buf)) = sizeof_FunctionModel m"
    by simp
  then have "off + sizeof_FunctionModel m \<le> length buf" using pos by (simp add: min_def split: if_splits)
  with pos show ?thesis by simp
qed

lemma FunctionModel_call_sizeof:
  "FunctionModel_call m a w = Inr (res, m', w1) \<Longrightarrow>
     sizeof_FunctionModel m' = sizeof_FunctionModel m \<and> bufs w1 = bufs w \<and> trace w1 = trace w"
  by (cases m) (auto simp: invoke_def split: prod.splits option.splits)

subsection \<open>Steps of the operations\<close>

lemma store_object_start:
  "sizeof_FunctionModel m \<le> length (m_buffer (bufs w this)) \<Longrightarrow>
   store_object (buffer_address this) m w =
     Inr (set_m_buffer this (object_repr m @ drop (sizeof_FunctionModel m) (m_buffer (bufs w this))) w)"
  by (simp add: store_object_def buffer_address_def write_repr_0)

lemma load_object_start:
  "0 < sizeof_FunctionModel m \<Longrightarrow> m_buffer (bufs w this) = object_repr m @ rest \<Longrightarrow>
   load_object w (buffer_address this) = Inr m"
  by (simp add: load_object_def buffer_address_def read_repr_object)

lemma raw_storage_length [simp]: "length (m_buffer raw_storage) = MAX_BUFFER_SIZE"
  by (simp add: raw_storage_def)

lemma raw_storage_update [simp]:
  "raw_storage\<lparr>m_buffer := bs, m_func := p\<rparr> = \<lparr>m_buffer = bs, m_func = p\<rparr>"
  "raw_storage\<lparr>m_buffer := bs\<rparr> = \<lparr>m_buffer = bs, m_func = None\<rparr>"
  by (simp_all add: raw_storage_def)

lemma ctor_Rvalue:
  assumes "0 < sizeof_model f" "sizeof_model f \<le> MAX_BUFFER_SIZE"
  shows "FunctionBuffer_ctor this (Rvalue f) w =
     Inr (w\<lparr>bufs := (bufs w)(this :=
              \<lparr>m_buffer = object_repr (By_value f) @ drop (sizeof_model f) (m_buffer raw_storage),
               m_func = Some (buffer_address this)\<rparr>),
            trace := trace w @ [Move_constructed (ident f)]\<rparr>)"
  using assms
  by (simp add: FunctionBuffer_ctor_def placement_new_def bind_r_def store_object_start
      set_m_func_def set_m_buffer_def)

lemma ctor_Lvalue:
  "FunctionBuffer_ctor this (Lvalue p) w =
     Inr (w\<lparr>bufs := (bufs w)(this :=
              \<lparr>m_buffer = object_repr (By_reference p) @ drop sizeof_ref_model (m_buffer raw_storage),
               m_func = Some (buffer_address this)\<rparr>)\<rparr>)"
proof -
  have "sizeof_ref_model \<le> MAX_BUFFER_SIZE" by (simp add: sizeof_ref_model_def MAX_BUFFER_SIZE_def)
  then show ?thesis
  by (simp add: FunctionBuffer_ctor_def placement_new_def bind_r_def store_object_start
      set_m_func_def set_m_buffer_def)
qed

lemma call_through_handle:
  assumes "m_func (bufs w this) = Some p" "load_object w p = Inr m"
    and "FunctionModel_call m a w = Inr (res, m', w1)"
  shows "\<exists>w2. FunctionBuffer_call this a w = Inr (res, w2) \<and> env w2 = env w1 \<and> objs w2 = objs w1
     \<and> trace w2 = trace w1"
proof -
  from assms(2) have fit: "snd p + sizeof_FunctionModel m \<le> length (m_buffer (bufs w (fst p)))"
    using read_repr_fits by (simp add: load_object_def) blast
  from FunctionModel_call_sizeof [OF assms(3)]
  have "sizeof_FunctionModel m' = sizeof_FunctionModel m" "bufs w1 = bufs w" by simp_all
  with fit obtain bs where "write_repr (m_buffer (bufs w1 (fst p))) (snd p) m' = Inr bs"
    by (simp add: write_repr_def)
  then show ?thesis using assms
    by (simp add: FunctionBuffer_call_def virtual_call_def bind_r_def store_object_def set_m_buffer_def)
qed

subsection \<open>Construction followed by invocation\<close>

text \<open>
  Claim C1. Constructing a FunctionBuffer from a callable whose adapter fits into the buffer
  and then invoking it with an argument gives what the direct call of the callable on that
  argument gives: the same value or exception, and the same program state. This holds for a
  temporary as for a caller's object.
\<close>

theorem construct_then_invoke:
  assumes "denoted w func = Some f"
    and "0 < sizeof_FunctionModel_T func" and "sizeof_FunctionModel_T func \<le> MAX_BUFFER_SIZE"
  shows "observe (bind_r (FunctionBuffer_ctor this func w) (FunctionBuffer_call this a))
         = (case invoke f a (env w) of (res, f', h') \<Rightarrow> Inr (res, h'))"
proof (cases func)
  case (Rvalue g)
  with assms have g: "g = f" "0 < sizeof_model f" "sizeof_model f \<le> MAX_BUFFER_SIZE" by simp_all
  obtain res f' h' where inv: "invoke f a (env w) = (res, f', h')" by (cases "invoke f a (env w)")
  let ?w1 = "w\<lparr>bufs := (bufs w)(this :=
              \<lparr>m_buffer = object_repr (By_value f) @ drop (sizeof_model f) (m_buffer raw_storage),
               m_func = Some (buffer_address this)\<rparr>),
            trace := trace w @ [Move_constructed (ident f)]\<rparr>"
  have c: "FunctionBuffer_ctor this func w = Inr ?w1" using Rvalue g ctor_Rvalue by simp
  have l: "load_object ?w1 (buffer_address this) = Inr (By_value f)"
    using g by (intro load_object_start) simp_all
  have h: "m_func (bufs ?w1 this) = Some (buffer_address this)" by simp
  have m: "FunctionModel_call (By_value f) a ?w1 = Inr (res, By_value f', ?w1\<lparr>env := h'\<rparr>)"
    using inv by simp
  from call_through_handle [OF h l m]
  obtain w2 where "FunctionBuffer_call this a ?w1 = Inr (res, w2)" "env w2 = h'" by auto
  then show ?thesis using c inv by (simp add: bind_r_def observe_def)
next
  case (Lvalue p)
  with assms have p: "objs w p = Some f" by simp
  obtain res f' h' where inv: "invoke f a (env w) = (res, f', h')" by (cases "invoke f a (env w)")
  let ?w1 = "w\<lparr>bufs := (bufs w)(this :=
              \<lparr>m_buffer = object_repr (By_reference p) @ drop sizeof_ref_model (m_buffer raw_storage),
               m_func = Some (buffer_address this)\<rparr>)\<rparr>"
  have c: "FunctionBuffer_ctor this func w = Inr ?w1" using Lvalue ctor_Lvalue by simp
  have l: "load_object ?w1 (buffer_address this) = Inr (By_reference p)"
    by (intro load_object_start) (simp_all add: sizeof_ref_model_def)
  have h: "m_func (bufs ?w1 this) = Some (buffer_address this)" by simp
  have m: "FunctionModel_call (By_reference p) a ?w1
          = Inr (res, By_reference p, ?w1\<lparr>env := h', objs := (objs ?w1)(p := Some f')\<rparr>)"
    using inv p by simp
  from call_through_handle [OF h l m]
  obtain w2 where "FunctionBuffer_call this a ?w1 = Inr (res, w2)" "env w2 = h'" by auto
  then show ?thesis using c inv by (simp add: bind_r_def observe_def)
qed

theorem construct_then_invoke_witness:
  "observe (bind_r (FunctionBuffer_ctor 0 (Rvalue adder) world0) (FunctionBuffer_call 0 5))
     = Inr (Inr 15, 0)"
  using construct_then_invoke [of world0 "Rvalue adder" adder 0 5]
  by (simp add: adder_def invoke_def MAX_BUFFER_SIZE_def world0_def)

lemma FunctionModel_dtor_frame [simp]:
  "bufs (FunctionModel_dtor m w) = bufs w" "objs (FunctionModel_dtor m w) = objs w"
  by (cases m; simp)+

lemma virtual_dtor_loaded:
  "load_object w p = Inr m \<Longrightarrow> virtual_dtor p w = Inr (FunctionModel_dtor m w)"
  by (simp add: virtual_dtor_def bind_r_def)

lemma FunctionModel_call_cong:
  assumes "env w = env w'" "objs w = objs w'"
  shows "map_sum id (\<lambda>(res, m', w1). (res, m', env w1, objs w1)) (FunctionModel_call m a w)
       = map_sum id (\<lambda>(res, m', w1). (res, m', env w1, objs w1)) (FunctionModel_call m a w')"
  using assms by (cases m) (auto split: prod.splits option.splits)

lemma observe_virtual_call_cong:
  assumes "m_buffer (bufs w (fst p)) = m_buffer (bufs w' (fst p'))" "snd p = snd p'"
    and "env w = env w'" "objs w = objs w'"
  shows "observe (virtual_call p a w) = observe (virtual_call p' a w')"
proof (cases "load_object w p")
  case (Inl e)
  then have "load_object w' p' = Inl e" using assms by (simp add: load_object_def)
  with Inl show ?thesis by (simp add: virtual_call_def bind_r_def observe_def)
next
  case (Inr m)
  then have l': "load_object w' p' = Inr m" using assms by (simp add: load_object_def)
  show ?thesis
  proof (cases "FunctionModel_call m a w")
    case (Inl e)
    with FunctionModel_call_cong [OF assms(3,4), of m a]
    have "FunctionModel_call m a w' = Inl e" by (cases "FunctionModel_call m a w'") auto
    with Inl Inr l' show ?thesis by (simp add: virtual_call_def bind_r_def observe_def)
  next
    case c: (Inr x)
    obtain res m' w1 where x: "x = (res, m', w1)" by (cases x)
    with c FunctionModel_call_cong [OF assms(3,4), of m a]
    obtain w1' where c': "FunctionModel_call m a w' = Inr (res, m', w1')" "env w1' = env w1"
      by (cases "FunctionModel_call m a w'") auto
    from c x have cx: "FunctionModel_call m a w = Inr (res, m', w1)" by simp
    from FunctionModel_call_sizeof [OF cx] have b: "bufs w1 = bufs w" by simp
    from FunctionModel_call_sizeof [OF c'(1)] have b': "bufs w1' = bufs w'" by simp
    have wr: "write_repr (m_buffer (bufs w1' (fst p'))) (snd p') m'
        = write_repr (m_buffer (bufs w1 (fst p))) (snd p) m'"
      using assms b b' by simp
    show ?thesis
    proof (cases "write_repr (m_buffer (bufs w1 (fst p))) (snd p) m'")
      case (Inl e)
      with wr Inr l' cx c' show ?thesis
        by (simp add: virtual_call_def bind_r_def observe_def store_object_def)
    next
      case st: (Inr bs)
      with wr Inr l' cx c' show ?thesis
        by (simp add: virtual_call_def bind_r_def observe_def store_object_def set_m_buffer_def)
    qed
  qed
qed

lemma std_copy_whole:
  "length src = n \<Longrightarrow> length dst = n \<Longrightarrow> std_copy src n dst = src"
  by (simp add: std_copy_def)

subsection \<open>Errors of an invocation\<close>

text \<open>
  Claim C2. Invoking a FunctionBuffer whose handle is null throws the runtime error
  "The function buffer is empty!" and leaves the program state as it was. When the handle is
  not null and the adapter's call operator throws an exception \<open>e\<close>, the invocation throws
  that same \<open>e\<close>, with the program state the callable left.
\<close>

theorem invocation_errors:
  "(m_func (bufs w this) = None \<longrightarrow>
      FunctionBuffer_call this a w = Inr (Inl (runtime_error ''The function buffer is empty!''), w))
   \<and> (\<forall>p m e m' w1.
        m_func (bufs w this) = Some p \<and> load_object w p = Inr m
          \<and> FunctionModel_call m a w = Inr (Inl e, m', w1)
        \<longrightarrow> (\<exists>w2. FunctionBuffer_call this a w = Inr (Inl e, w2) \<and> env w2 = env w1))"
proof (intro conjI impI allI)
  assume "m_func (bufs w this) = None"
  then show "FunctionBuffer_call this a w
               = Inr (Inl (runtime_error ''The function buffer is empty!''), w)"
    by (simp add: FunctionBuffer_call_def)
next
  fix p m e m' w1
  assume "m_func (bufs w this) = Some p \<and> load_object w p = Inr m
          \<and> FunctionModel_call m a w = Inr (Inl e, m', w1)"
  then have "m_func (bufs w this) = Some p" "load_object w p = Inr m"
    "FunctionModel_call m a w = Inr (Inl e, m', w1)" by simp_all
  from call_through_handle [OF this]
  show "\<exists>w2. FunctionBuffer_call this a w = Inr (Inl e, w2) \<and> env w2 = env w1" by blast
qed

theorem invocation_errors_witness:
  "FunctionBuffer_call 0 5 world0 = Inr (Inl (runtime_error ''The function buffer is empty!''), world0)
   \<and> observe (bind_r (FunctionBuffer_ctor 0 (Rvalue thrower) world0) (FunctionBuffer_call 0 5))
       = Inr (Inl (other_exception ''boom''), 1)"
proof -
  let ?w1 = "world0\<lparr>bufs := (bufs world0)(0 :=
              \<lparr>m_buffer = object_repr (By_value thrower) @ drop (sizeof_model thrower) (m_buffer raw_storage),
               m_func = Some (buffer_address 0)\<rparr>),
            trace := trace world0 @ [Move_constructed (ident thrower)]\<rparr>"
  have c: "FunctionBuffer_ctor 0 (Rvalue thrower) world0 = Inr ?w1"
    by (rule ctor_Rvalue) (simp_all add: thrower_def MAX_BUFFER_SIZE_def)
  have h: "m_func (bufs ?w1 0) = Some (buffer_address 0)" by simp
  have l: "load_object ?w1 (buffer_address 0) = Inr (By_value thrower)"
    by (intro load_object_start) (simp_all add: thrower_def)
  have m: "FunctionModel_call (By_value thrower) 5 ?w1
            = Inr (Inl (other_exception ''boom''), By_value thrower, ?w1\<lparr>env := 1\<rparr>)"
    by (simp add: invoke_def thrower_def world0_def)
  have e: "m_func (bufs world0 0) = None" by (simp add: world0_def raw_storage_def)
  from invocation_errors [of world0 0 5] e
  have first: "FunctionBuffer_call 0 5 world0
                 = Inr (Inl (runtime_error ''The function buffer is empty!''), world0)" by blast
  from invocation_errors [of ?w1 0 5] h l m
  obtain w2 where "FunctionBuffer_call 0 5 ?w1 = Inr (Inl (other_exception ''boom''), w2)"
    "env w2 = 1" by fastforce
  with c first show ?thesis by (simp add: bind_r_def observe_def)
qed

subsection \<open>A failed invocation changes nothing\<close>

text \<open>
  Claim C10. When the handle is null, the invocation throws the empty-buffer error and the
  buffer is as before: the handle is still null, the bytes of the array are the same, and
  assigning a callable and invoking it afterwards gives what it gives without the failed
  invocation. The witness takes a buffer that has just been moved from.
\<close>

theorem empty_call_leaves_state:
  assumes "m_func (bufs w this) = None"
  shows "\<exists>w'. FunctionBuffer_call this a w
                = Inr (Inl (runtime_error ''The function buffer is empty!''), w')
           \<and> m_func (bufs w' this) = None
           \<and> m_buffer (bufs w' this) = m_buffer (bufs w this)
           \<and> bind_r (FunctionBuffer_assign this func w') (FunctionBuffer_call this b)
               = bind_r (FunctionBuffer_assign this func w) (FunctionBuffer_call this b)"
  using assms by (simp add: FunctionBuffer_call_def)

theorem empty_call_leaves_state_witness:
  "m_func (bufs (FunctionBuffer_move_ctor 1 0 world1) 0) = None
   \<and> (\<exists>w'. FunctionBuffer_call 0 5 (FunctionBuffer_move_ctor 1 0 world1)
                = Inr (Inl (runtime_error ''The function buffer is empty!''), w')
           \<and> m_func (bufs w' 0) = None
           \<and> m_buffer (bufs w' 0) = m_buffer (bufs (FunctionBuffer_move_ctor 1 0 world1) 0)
           \<and> bind_r (FunctionBuffer_assign 0 (Rvalue doubler) w') (FunctionBuffer_call 0 7)
               = bind_r (FunctionBuffer_assign 0 (Rvalue doubler) (FunctionBuffer_move_ctor 1 0 world1))
                   (FunctionBuffer_call 0 7))"
proof -
  have e: "m_func (bufs (FunctionBuffer_move_ctor 1 0 world1) 0) = None"
    by (simp add: FunctionBuffer_move_ctor_def set_m_func_def set_m_buffer_def Let_def)
  from empty_call_leaves_state [OF e, of 5 "Rvalue doubler" 7] e show ?thesis by blast
qed

subsection \<open>The sample world\<close>

lemma world1_eq:
  "world1 = world0\<lparr>bufs := (bufs world0)(0 :=
              \<lparr>m_buffer = object_repr (By_value adder) @ drop (sizeof_model adder) (m_buffer raw_storage),
               m_func = Some (buffer_address 0)\<rparr>),
            trace := trace world0 @ [Move_constructed (ident adder)]\<rparr>"
proof -
  have "FunctionBuffer_ctor 0 (Rvalue adder) world0 = Inr (world0\<lparr>bufs := (bufs world0)(0 :=
              \<lparr>m_buffer = object_repr (By_value adder) @ drop (sizeof_model adder) (m_buffer raw_storage),
               m_func = Some (buffer_address 0)\<rparr>),
            trace := trace world0 @ [Move_constructed (ident adder)]\<rparr>)"
    by (rule ctor_Rvalue) (simp_all add: adder_def MAX_BUFFER_SIZE_def)
  then show ?thesis by (simp add: world1_def)
qed

lemma world1_facts:
  "m_func (bufs world1 0) = Some (buffer_address 0)"
  "length (m_buffer (bufs world1 0)) = MAX_BUFFER_SIZE"
  "load_object world1 (buffer_address 0) = Inr (By_value adder)"
  "env world1 = 0" "trace world1 = [Move_constructed 1]"
proof -
  show "m_func (bufs world1 0) = Some (buffer_address 0)" by (simp add: world1_eq)
  show "length (m_buffer (bufs world1 0)) = MAX_BUFFER_SIZE"
    by (simp add: world1_eq adder_def MAX_BUFFER_SIZE_def raw_storage_def)
  show "load_object world1 (buffer_address 0) = Inr (By_value adder)"
    by (rule load_object_start [where rest = "drop (sizeof_model adder) (m_buffer raw_storage)"])
       (simp_all add: world1_eq adder_def)
  show "env world1 = 0" by (simp add: world1_eq world0_def)
  show "trace world1 = [Move_constructed 1]" by (simp add: world1_eq world0_def adder_def)
qed

subsection \<open>What an invocation depends on\<close>

lemma observe_call_cong:
  assumes "m_func (bufs w this) = Some (buffer_address this)"
    and "m_func (bufs w' this') = Some (buffer_address this')"
    and "m_buffer (bufs w this) = m_buffer (bufs w' this')"
    and "env w = env w'" "objs w = objs w'"
  shows "observe (FunctionBuffer_call this a w) = observe (FunctionBuffer_call this' a w')"
  using assms observe_virtual_call_cong [of w "buffer_address this" w' "buffer_address this'" a]
  by (simp add: FunctionBuffer_call_def buffer_address_def)

lemma call_By_value:
  assumes "m_func (bufs w this) = Some p" "load_object w p = Inr (By_value f)"
  shows "observe (FunctionBuffer_call this a w)
           = (case invoke f a (env w) of (res, f', h') \<Rightarrow> Inr (res, h'))"
proof -
  obtain res f' h' where inv: "invoke f a (env w) = (res, f', h')" by (cases "invoke f a (env w)")
  then have "FunctionModel_call (By_value f) a w = Inr (res, By_value f', w\<lparr>env := h'\<rparr>)" by simp
  from call_through_handle [OF assms this]
  show ?thesis using inv by (auto simp: observe_def)
qed

subsection \<open>Move construction\<close>



subsection \<open>Copies\<close>

lemma call_frame:
  assumes "m_func (bufs w this) = Some (buffer_address this)"
    and "FunctionBuffer_call this a w = Inr (res, w2)"
    and "other \<noteq> this"
  shows "bufs w2 other = bufs w other"
proof -
  from assms(1,2) have vc: "virtual_call (buffer_address this) a w = Inr (res, w2)"
    by (simp add: FunctionBuffer_call_def)
  then obtain m where l: "load_object w (buffer_address this) = Inr m"
    by (cases "load_object w (buffer_address this)") (simp_all add: virtual_call_def bind_r_def)
  with vc obtain x where c: "FunctionModel_call m a w = Inr x"
    by (cases "FunctionModel_call m a w") (simp_all add: virtual_call_def bind_r_def)
  obtain r m' w1 where x: "x = (r, m', w1)" by (cases x)
  from c x have cx: "FunctionModel_call m a w = Inr (r, m', w1)" by simp
  from FunctionModel_call_sizeof [OF cx] have b: "bufs w1 = bufs w" by simp
  from vc l cx obtain bs where "w2 = set_m_buffer this bs w1"
    by (cases "write_repr (m_buffer (bufs w1 this)) 0 m'")
       (auto simp: virtual_call_def bind_r_def store_object_def buffer_address_def)
  then show ?thesis using b assms(3) by (simp add: set_m_buffer_def)
qed

lemma independent_duplicateI:
  assumes ne: "this \<noteq> other"
    and src: "m_func (bufs w other) = Some (buffer_address other)"
      "load_object w (buffer_address other) = Inr (By_value f)"
    and triv: "\<forall>s h. dtor_op f s h = h"
    and buf: "m_buffer (bufs w' this) = m_buffer (bufs w other)"
    and hd: "m_func (bufs w' this) = Some (buffer_address this)"
    and same: "bufs w' other = bufs w other"
  shows "independent_duplicate this other a f w w'"
proof -
  have lo: "load_object w' (buffer_address other) = Inr (By_value f)"
    using src same by (simp add: load_object_def buffer_address_def)
  have lt: "load_object w' (buffer_address this) = Inr (By_value f)"
    using src buf by (simp add: load_object_def buffer_address_def)
  have ho: "m_func (bufs w' other) = Some (buffer_address other)" using src same by simp
  have c1: "observe (FunctionBuffer_call this a w')
       = (case invoke f a (env w') of (res, f', h') \<Rightarrow> Inr (res, h'))"
    by (rule call_By_value [OF hd lt])
  have c2: "observe (FunctionBuffer_call other a w')
       = (case invoke f a (env w') of (res, f', h') \<Rightarrow> Inr (res, h'))"
    by (rule call_By_value [OF ho lo])
  obtain res f' h' where inv: "invoke f a (env w') = (res, f', h')"
    by (cases "invoke f a (env w')")
  then have "FunctionModel_call (By_value f) a w' = Inr (res, By_value f', w'\<lparr>env := h'\<rparr>)"
    by simp
  from call_through_handle [OF hd lt this]
  obtain w2 where c: "FunctionBuffer_call this a w' = Inr (res, w2)" by blast
  from call_frame [OF hd c] ne have fr: "bufs w2 other = bufs w' other" by simp
  have ho2: "m_func (bufs w2 other) = Some (buffer_address other)" using fr ho by simp
  have lo2: "load_object w2 (buffer_address other) = Inr (By_value f)"
    using fr lo by (simp add: load_object_def buffer_address_def)
  have "observe (FunctionBuffer_call other a w2)
       = (case invoke f a (env w2) of (res, f', h') \<Rightarrow> Inr (res, h'))"
    by (rule call_By_value [OF ho2 lo2])
  with c have c3: "(case FunctionBuffer_call this a w' of
         Inl e \<Rightarrow> False
       | Inr (r, w2) \<Rightarrow>
           observe (FunctionBuffer_call other a w2)
             = (case invoke f a (env w2) of (res, f', h') \<Rightarrow> Inr (res, h')))"
    by simp
  let ?w2 = "FunctionModel_dtor (By_value f) w'"
  have d1: "FunctionBuffer_dtor this w' = Inr ?w2"
    using hd lt by (simp add: FunctionBuffer_dtor_def virtual_dtor_loaded)
  have d2: "FunctionBuffer_dtor other w' = Inr ?w2"
    using ho lo by (simp add: FunctionBuffer_dtor_def virtual_dtor_loaded)
  have e: "env ?w2 = env w'" using triv by simp
  have o1: "observe (FunctionBuffer_call other a ?w2) = observe (FunctionBuffer_call other a w')"
    by (rule observe_call_cong) (simp_all add: ho e del: FunctionModel_dtor.simps)
  have o2: "observe (FunctionBuffer_call this a ?w2) = observe (FunctionBuffer_call this a w')"
    by (rule observe_call_cong) (simp_all add: hd e del: FunctionModel_dtor.simps)
  show ?thesis
    unfolding independent_duplicate_def
    using buf hd src(1) same c1 c2 c3 d1 d2 o1 o2 by (simp add: buffer_address_def)
qed

text \<open>
  Copy assignment from a const source, lines 143 to 156, written out: the occupant of the
  destination, if any, is destroyed, the 40 bytes are copied and the handle points at the
  destination's own array.
\<close>

lemma copy_assign_occupied:
  assumes "m_func (bufs w this) = Some p" "load_object w p = Inr m"
  shows "FunctionBuffer_copy_assign this other w =
     Inr (set_m_func this (Some (buffer_address this))
           (set_m_buffer this
              (std_copy (m_buffer (bufs w other)) MAX_BUFFER_SIZE (m_buffer (bufs w this)))
              (FunctionModel_dtor m w)))"
  using assms
  by (simp add: FunctionBuffer_copy_assign_def virtual_dtor_loaded bind_r_def Let_def
      del: FunctionModel_dtor.simps)

lemma copy_assign_empty:
  assumes "m_func (bufs w this) = None"
  shows "FunctionBuffer_copy_assign this other w =
     Inr (set_m_func this (Some (buffer_address this))
           (set_m_buffer this
              (std_copy (m_buffer (bufs w other)) MAX_BUFFER_SIZE (m_buffer (bufs w this))) w))"
  using assms by (simp add: FunctionBuffer_copy_assign_def bind_r_def Let_def)

lemma copy_assign_is_independent_duplicate:
  assumes "this \<noteq> other"
    and "m_func (bufs w other) = Some (buffer_address other)"
    and "length (m_buffer (bufs w other)) = MAX_BUFFER_SIZE"
    and "load_object w (buffer_address other) = Inr (By_value f)"
    and "\<forall>s h. dtor_op f s h = h"
    and "length (m_buffer (bufs w this)) = MAX_BUFFER_SIZE"
    and "m_func (bufs w this) = None
          \<or> (\<exists>m. m_func (bufs w this) = Some (buffer_address this)
                   \<and> load_object w (buffer_address this) = Inr m)"
  shows "\<exists>w'. FunctionBuffer_copy_assign this other w = Inr w'
           \<and> independent_duplicate this other a f w w'"
proof -
  from assms(7) obtain w1 where w1: "bufs w1 = bufs w"
    and a: "FunctionBuffer_copy_assign this other w =
     Inr (set_m_func this (Some (buffer_address this))
           (set_m_buffer this
              (std_copy (m_buffer (bufs w other)) MAX_BUFFER_SIZE (m_buffer (bufs w this))) w1))"
    using copy_assign_empty [of w this other] copy_assign_occupied [of w this _ _ other]
    by (metis FunctionModel_dtor_frame(1))
  let ?w' = "set_m_func this (Some (buffer_address this))
           (set_m_buffer this
              (std_copy (m_buffer (bufs w other)) MAX_BUFFER_SIZE (m_buffer (bufs w this))) w1)"
  have "independent_duplicate this other a f w ?w'"
    using assms(1-6) w1
    by (intro independent_duplicateI)
       (simp_all add: set_m_func_def set_m_buffer_def std_copy_whole)
  with a show ?thesis by blast
qed

text \<open>
  Claim C3. Copy construction does not produce a duplicate. The copy constructor of lines
  136 to 140, which a const source selects, is ill-formed: constructing a buffer at 2 from
  the buffer at 0 of \<open>world1\<close> yields no program state. (A non-const source selects the
  templated constructor and assignment instead, which store a reference to the source, as
  for any lvalue.) The sibling operation, copy assignment from a const source, does what the
  claim says of a copy: in \<open>world1\<close> it makes the buffer at 2 an independent duplicate of
  the buffer at 0.
\<close>

theorem copy_construction_is_ill_formed:
  "FunctionBuffer_copy_ctor 2 0 world1 = Inl (ill_formed ''m_buffer{other.m_buffer}'')
   \<and> (\<exists>w'. FunctionBuffer_copy_assign 2 0 world1 = Inr w'
           \<and> independent_duplicate 2 0 5 adder world1 w'
           \<and> observe (FunctionBuffer_call 2 5 w') = Inr (Inr 15, 0)
           \<and> trace w' = [Move_constructed 1])"
proof -
  have triv: "\<forall>s h. dtor_op adder s h = h" by (simp add: adder_def)
  have dst: "length (m_buffer (bufs world1 2)) = MAX_BUFFER_SIZE" "m_func (bufs world1 2) = None"
    by (simp_all add: world1_eq world0_def raw_storage_def)
  have ne: "(2::nat) \<noteq> 0" by simp
  let ?w' = "set_m_func 2 (Some (buffer_address 2))
           (set_m_buffer 2
              (std_copy (m_buffer (bufs world1 0)) MAX_BUFFER_SIZE (m_buffer (bufs world1 2)))
              world1)"
  have a: "FunctionBuffer_copy_assign 2 0 world1 = Inr ?w'"
    by (rule copy_assign_empty) (rule dst)
  from copy_assign_is_independent_duplicate
         [OF ne world1_facts(1) world1_facts(2) world1_facts(3) triv dst(1), of 5] dst(2) a
  have dup: "independent_duplicate 2 0 5 adder world1 ?w'" by simp
  have e: "env ?w' = 0" "trace ?w' = [Move_constructed 1]"
    by (simp_all add: set_m_func_def set_m_buffer_def world1_facts)
  from dup have "observe (FunctionBuffer_call 2 5 ?w') = Inr (Inr 15, 0)"
    unfolding independent_duplicate_def e by (simp add: invoke_def adder_def)
  with a dup e show ?thesis by (simp add: FunctionBuffer_copy_ctor_def)
qed

subsection \<open>Placement and assignment\<close>

lemma placement_new_start:
  assumes "sizeof_FunctionModel_T func \<le> length (m_buffer (bufs w this))"
  shows "placement_new (buffer_address this) func w =
     Inr (buffer_address this,
          set_m_buffer this
            (object_repr (fst (FunctionModel_ctor func w))
               @ drop (sizeof_FunctionModel_T func) (m_buffer (bufs w this)))
            (w\<lparr>trace := trace w @ ctor_events func\<rparr>))"
  using assms
  by (cases func)
     (simp_all add: placement_new_def bind_r_def store_object_start set_m_buffer_def)

lemma sizeof_adapter [simp]:
  "sizeof_FunctionModel (fst (FunctionModel_ctor func w)) = sizeof_FunctionModel_T func"
  by (cases func) simp_all

lemma adapter_indep: "fst (FunctionModel_ctor func w) = fst (FunctionModel_ctor func w')"
  by (cases func) simp_all

lemma no_dtor_in_ctor_events: "Destroyed i \<notin> set (ctor_events func)"
  by (cases func) simp_all

lemma call_By_reference:
  assumes "m_func (bufs w this) = Some p" "load_object w p = Inr (By_reference q)"
    and "objs w q = Some f"
  shows "observe (FunctionBuffer_call this a w)
           = (case invoke f a (env w) of (res, f', h') \<Rightarrow> Inr (res, h'))"
proof -
  obtain res f' h' where inv: "invoke f a (env w) = (res, f', h')" by (cases "invoke f a (env w)")
  then have "FunctionModel_call (By_reference q) a w
      = Inr (res, By_reference q, w\<lparr>env := h', objs := (objs w)(q := Some f')\<rparr>)"
    using assms(3) by simp
  from call_through_handle [OF assms(1,2) this]
  show ?thesis using inv by (auto simp: observe_def)
qed

lemma call_dangling:
  assumes "m_func (bufs w this) = Some p" "load_object w p = Inr (By_reference q)"
    and "objs w q = None"
  shows "FunctionBuffer_call this a w = Inl dangling_reference"
  using assms by (simp add: FunctionBuffer_call_def virtual_call_def bind_r_def)

text \<open>
  Templated assignment, lines 107 to 116, written out for a destination holding the adapter
  \<open>m\<close> and for an empty destination.
\<close>

lemma assign_occupied:
  assumes "length (m_buffer (bufs w this)) = MAX_BUFFER_SIZE"
    and "0 < sizeof_FunctionModel_T func" and "sizeof_FunctionModel_T func \<le> MAX_BUFFER_SIZE"
    and "m_func (bufs w this) = Some (buffer_address this)"
    and "load_object w (buffer_address this) = Inr m"
  shows "\<exists>w'. FunctionBuffer_assign this func w = Inr w'
           \<and> trace w' = trace (FunctionModel_dtor m w) @ ctor_events func
           \<and> env w' = env (FunctionModel_dtor m w)
           \<and> objs w' = objs w
           \<and> load_object w' (buffer_address this) = Inr (fst (FunctionModel_ctor func w))
           \<and> m_func (bufs w' this) = Some (buffer_address this)"
proof -
  let ?w1 = "FunctionModel_dtor m w"
  have d: "virtual_dtor (buffer_address this) w = Inr ?w1"
    using assms(5) by (rule virtual_dtor_loaded)
  have eq: "FunctionBuffer_assign this func w
                  = bind_r (placement_new (buffer_address this) func ?w1)
                      (\<lambda>(p, w2). Inr (set_m_func this (Some p) w2))"
    using d assms(4) by (simp add: FunctionBuffer_assign_def bind_r_def)
  have fit: "sizeof_FunctionModel_T func \<le> length (m_buffer (bufs ?w1 this))"
    using assms by simp
  let ?m = "fst (FunctionModel_ctor func w)"
  have m: "fst (FunctionModel_ctor func ?w1) = ?m" by (rule adapter_indep)
  let ?w' = "set_m_func this (Some (buffer_address this))
     (set_m_buffer this
        (object_repr ?m @ drop (sizeof_FunctionModel_T func) (m_buffer (bufs ?w1 this)))
        (?w1\<lparr>trace := trace ?w1 @ ctor_events func\<rparr>))"
  have a: "FunctionBuffer_assign this func w = Inr ?w'"
    unfolding eq placement_new_start [OF fit] m by (simp add: bind_r_def)
  have "load_object ?w' (buffer_address this) = Inr ?m"
    using assms(2)
    by (intro load_object_start
          [where rest = "drop (sizeof_FunctionModel_T func) (m_buffer (bufs ?w1 this))"])
       (simp_all add: set_m_func_def set_m_buffer_def)
  moreover have "trace ?w' = trace ?w1 @ ctor_events func" "env ?w' = env ?w1"
    "objs ?w' = objs w" "m_func (bufs ?w' this) = Some (buffer_address this)"
    by (simp_all add: set_m_func_def set_m_buffer_def del: FunctionModel_dtor.simps)
  ultimately show ?thesis using a by blast
qed

lemma assign_empty:
  assumes "length (m_buffer (bufs w this)) = MAX_BUFFER_SIZE"
    and "0 < sizeof_FunctionModel_T func" and "sizeof_FunctionModel_T func \<le> MAX_BUFFER_SIZE"
    and "m_func (bufs w this) = None"
  shows "\<exists>w'. FunctionBuffer_assign this func w = Inr w'
           \<and> trace w' = trace w @ ctor_events func
           \<and> env w' = env w
           \<and> objs w' = objs w
           \<and> load_object w' (buffer_address this) = Inr (fst (FunctionModel_ctor func w))
           \<and> m_func (bufs w' this) = Some (buffer_address this)"
proof -
  have fit: "sizeof_FunctionModel_T func \<le> length (m_buffer (bufs w this))"
    using assms by simp
  let ?m = "fst (FunctionModel_ctor func w)"
  let ?w' = "set_m_func this (Some (buffer_address this))
     (set_m_buffer this
        (object_repr ?m @ drop (sizeof_FunctionModel_T func) (m_buffer (bufs w this)))
        (w\<lparr>trace := trace w @ ctor_events func\<rparr>))"
  have a: "FunctionBuffer_assign this func w = Inr ?w'"
    using assms(4)
    by (simp add: FunctionBuffer_assign_def placement_new_start [OF fit] bind_r_def)
  have "load_object ?w' (buffer_address this) = Inr ?m"
    using assms(2)
    by (intro load_object_start
          [where rest = "drop (sizeof_FunctionModel_T func) (m_buffer (bufs w this))"])
       (simp_all add: set_m_func_def set_m_buffer_def)
  moreover have "trace ?w' = trace w @ ctor_events func" "env ?w' = env w"
    "objs ?w' = objs w" "m_func (bufs ?w' this) = Some (buffer_address this)"
    by (simp_all add: set_m_func_def set_m_buffer_def)
  ultimately show ?thesis using a by blast
qed

text \<open>
  When the occupant holds the callable \<open>g\<close>, that is one destructor of \<open>g\<close>, on the
  program state as well as in the trace, before the construction.
\<close>

lemma assign_over_By_value:
  assumes "length (m_buffer (bufs w this)) = MAX_BUFFER_SIZE"
    and "0 < sizeof_FunctionModel_T func" and "sizeof_FunctionModel_T func \<le> MAX_BUFFER_SIZE"
    and "m_func (bufs w this) = Some (buffer_address this)"
    and "load_object w (buffer_address this) = Inr (By_value g)"
  shows "\<exists>w'. FunctionBuffer_assign this func w = Inr w'
           \<and> trace w' = trace w @ Destroyed (ident g) # ctor_events func
           \<and> env w' = dtor_op g (captured g) (env w)
           \<and> load_object w' (buffer_address this) = Inr (fst (FunctionModel_ctor func w))"
  using assign_occupied [OF assms] by auto

subsection \<open>The buffer built from an lvalue\<close>

lemma world2_eq:
  "world2 = caller_world\<lparr>bufs := (bufs caller_world)(0 :=
              \<lparr>m_buffer = object_repr (By_reference 7)
                            @ drop sizeof_ref_model (m_buffer raw_storage),
               m_func = Some (buffer_address 0)\<rparr>)\<rparr>"
  by (simp add: world2_def ctor_Lvalue)

lemma world2_facts:
  "m_func (bufs world2 0) = Some (buffer_address 0)"
  "length (m_buffer (bufs world2 0)) = MAX_BUFFER_SIZE"
  "load_object world2 (buffer_address 0) = Inr (By_reference 7)"
  "env world2 = 0" "trace world2 = []" "objs world2 7 = Some doubler"
proof -
  show "m_func (bufs world2 0) = Some (buffer_address 0)" by (simp add: world2_eq)
  show "length (m_buffer (bufs world2 0)) = MAX_BUFFER_SIZE"
    by (simp add: world2_eq sizeof_ref_model_def MAX_BUFFER_SIZE_def raw_storage_def)
  show "load_object world2 (buffer_address 0) = Inr (By_reference 7)"
    by (rule load_object_start [where rest = "drop sizeof_ref_model (m_buffer raw_storage)"])
       (simp_all add: world2_eq sizeof_ref_model_def)
  show "env world2 = 0" by (simp add: world2_eq caller_world_def world0_def)
  show "trace world2 = []" by (simp add: world2_eq caller_world_def world0_def)
  show "objs world2 7 = Some doubler" by (simp add: world2_eq caller_world_def)
qed

text \<open>
  Claim C7. In \<open>world2\<close> the buffer at 0 was constructed from the caller's lvalue
  \<open>doubler\<close>; it is non-empty and invoking it gives the result of \<open>doubler\<close>. Assigning
  the temporary \<open>adder\<close> to it returns and leaves the new adapter in place, but the trace
  gains the move construction of \<open>adder\<close> only: no destructor of the callable the buffer
  stood for has run, and the caller's object is as it was. (For a buffer built from a
  temporary the destructor does run once, \<open>assign_over_By_value\<close>.)
\<close>

theorem assignment_over_lvalue_runs_no_destructor:
  "FunctionBuffer_bool 0 world2
   \<and> observe (FunctionBuffer_call 0 7 world2) = Inr (Inr 14, 0)
   \<and> map_sum id trace (FunctionBuffer_assign 0 (Rvalue adder) world2) = Inr [Move_constructed 1]
   \<and> map_sum id (\<lambda>w. objs w 7) (FunctionBuffer_assign 0 (Rvalue adder) world2)
       = Inr (Some doubler)
   \<and> observe (bind_r (FunctionBuffer_assign 0 (Rvalue adder) world2) (FunctionBuffer_call 0 5))
       = Inr (Inr 15, 0)"
proof -
  have sz: "0 < sizeof_FunctionModel_T (Rvalue adder)"
    "sizeof_FunctionModel_T (Rvalue adder) \<le> MAX_BUFFER_SIZE"
    by (simp_all add: adder_def MAX_BUFFER_SIZE_def)
  from assign_occupied [OF world2_facts(2) sz world2_facts(1) world2_facts(3)]
  obtain w' where a: "FunctionBuffer_assign 0 (Rvalue adder) world2 = Inr w'"
    and t: "trace w' = [Move_constructed 1]" and e: "env w' = 0"
    and os: "objs w' = objs world2"
    and l: "load_object w' (buffer_address 0) = Inr (By_value adder)"
    and h: "m_func (bufs w' 0) = Some (buffer_address 0)"
    by (auto simp: world2_facts adder_def)
  have b: "FunctionBuffer_bool 0 world2" by (simp add: FunctionBuffer_bool_def world2_facts)
  have c0: "observe (FunctionBuffer_call 0 7 world2) = Inr (Inr 14, 0)"
    using call_By_reference [OF world2_facts(1) world2_facts(3) world2_facts(6), of 7]
    by (simp add: invoke_def doubler_def world2_facts)
  have c1: "observe (FunctionBuffer_call 0 5 w') = Inr (Inr 15, 0)"
    using call_By_value [OF h l, of 5] by (simp add: invoke_def adder_def e)
  from a t os b c0 c1 show ?thesis by (simp add: bind_r_def world2_facts)
qed

subsection \<open>Self move assignment\<close>

text \<open>
  Move assignment, lines 167 to 176, written out for a destination holding the adapter
  \<open>m\<close>; \<open>this\<close> and \<open>other\<close> may be one address.
\<close>

lemma move_assign_occupied:
  assumes "m_func (bufs w this) = Some p" "load_object w p = Inr m"
  shows "FunctionBuffer_move_assign this other w =
     Inr (set_m_func other None
           (set_m_func this (Some (buffer_address this))
             (set_m_buffer this
                (std_copy (m_buffer (bufs w other)) MAX_BUFFER_SIZE (m_buffer (bufs w this)))
                (FunctionModel_dtor m w))))"
  using assms
  by (simp add: FunctionBuffer_move_assign_def virtual_dtor_loaded bind_r_def Let_def
      del: FunctionModel_dtor.simps)

lemma self_move_assign_occupied:
  assumes "m_func (bufs w this) = Some p" "load_object w p = Inr m"
  shows "\<exists>w'. FunctionBuffer_move_assign this this w = Inr w'
           \<and> trace w' = trace (FunctionModel_dtor m w)
           \<and> env w' = env (FunctionModel_dtor m w)
           \<and> objs w' = objs w
           \<and> \<not> FunctionBuffer_bool this w'
           \<and> FunctionBuffer_call this a w'
               = Inr (Inl (runtime_error ''The function buffer is empty!''), w')
           \<and> FunctionBuffer_dtor this w' = Inr w'"
proof -
  let ?w' = "set_m_func this None
           (set_m_func this (Some (buffer_address this))
             (set_m_buffer this
                (std_copy (m_buffer (bufs w this)) MAX_BUFFER_SIZE (m_buffer (bufs w this)))
                (FunctionModel_dtor m w)))"
  have a: "FunctionBuffer_move_assign this this w = Inr ?w'"
    by (rule move_assign_occupied [OF assms])
  have "m_func (bufs ?w' this) = None" "trace ?w' = trace (FunctionModel_dtor m w)"
    "env ?w' = env (FunctionModel_dtor m w)" "objs ?w' = objs w"
    by (simp_all add: set_m_func_def set_m_buffer_def del: FunctionModel_dtor.simps)
  then show ?thesis
    unfolding a
    by (simp add: FunctionBuffer_bool_def FunctionBuffer_call_def FunctionBuffer_dtor_def
        del: FunctionModel_dtor.simps)
qed

lemma self_move_assign_By_value:
  assumes "m_func (bufs w this) = Some p" "load_object w p = Inr (By_value g)"
  shows "\<exists>w'. FunctionBuffer_move_assign this this w = Inr w'
           \<and> trace w' = trace w @ [Destroyed (ident g)]
           \<and> env w' = dtor_op g (captured g) (env w)
           \<and> \<not> FunctionBuffer_bool this w'
           \<and> FunctionBuffer_call this a w'
               = Inr (Inl (runtime_error ''The function buffer is empty!''), w')
           \<and> FunctionBuffer_dtor this w' = Inr w'"
  using self_move_assign_occupied [OF assms, of a] by auto

text \<open>
  Claim C9. In \<open>world2\<close> the buffer at 0, constructed from the caller's lvalue, is
  non-empty. Move-assigning it to itself returns and leaves it empty (its conversion to
  bool is false, invoking it throws the empty-buffer error, its destructor runs nothing),
  but the trace stays empty: no destructor of a callable has run, where the claim has
  exactly one. (For a buffer built from a temporary the destructor does run once,
  \<open>self_move_assign_By_value\<close>.)
\<close>

theorem self_move_over_lvalue_runs_no_destructor:
  "FunctionBuffer_bool 0 world2
   \<and> map_sum id trace (FunctionBuffer_move_assign 0 0 world2) = Inr []
   \<and> map_sum id env (FunctionBuffer_move_assign 0 0 world2) = Inr 0
   \<and> map_sum id (FunctionBuffer_bool 0) (FunctionBuffer_move_assign 0 0 world2) = Inr False
   \<and> observe (bind_r (FunctionBuffer_move_assign 0 0 world2) (FunctionBuffer_call 0 7))
       = Inr (Inl (runtime_error ''The function buffer is empty!''), 0)
   \<and> map_sum id trace (bind_r (FunctionBuffer_move_assign 0 0 world2) (FunctionBuffer_dtor 0))
       = Inr []"
proof -
  from self_move_assign_occupied [OF world2_facts(1) world2_facts(3), of 7]
  obtain w' where a: "FunctionBuffer_move_assign 0 0 world2 = Inr w'"
    and t: "trace w' = []" and e: "env w' = 0"
    and b: "\<not> FunctionBuffer_bool 0 w'"
    and c: "FunctionBuffer_call 0 7 w'
               = Inr (Inl (runtime_error ''The function buffer is empty!''), w')"
    and d: "FunctionBuffer_dtor 0 w' = Inr w'"
    by (auto simp: world2_facts)
  have "FunctionBuffer_bool 0 world2" by (simp add: FunctionBuffer_bool_def world2_facts)
  with a t e b c d show ?thesis by (simp add: bind_r_def observe_def)
qed

subsection \<open>Oversized assignment\<close>

lemma write_repr_overrun:
  "length buf < off + sizeof_FunctionModel m \<Longrightarrow> write_repr buf off m = Inl buffer_overrun"
  by (simp add: write_repr_def)

text \<open>
  Claim C4. The static assertion guards the constructor only. Constructing from \<open>big\<close>,
  whose adapter takes 48 bytes, is rejected when the constructor is instantiated. Assigning
  \<open>big\<close> to an existing buffer is instantiated and runs: the previous adapter is destroyed
  and the placement writes 48 bytes at the start of the 40-byte array.
\<close>

theorem oversized_assignment_overruns:
  "FunctionBuffer_ctor 2 (Rvalue big) world1
     = Inl (static_assert_failed ''The object won't fit in this buffer!'')
   \<and> FunctionBuffer_assign 0 (Rvalue big) world1 = Inl buffer_overrun"
proof -
  have "FunctionBuffer_ctor 2 (Rvalue big) world1
     = Inl (static_assert_failed ''The object won't fit in this buffer!'')"
    by (simp add: FunctionBuffer_ctor_def big_def MAX_BUFFER_SIZE_def)
  moreover have "virtual_dtor (buffer_address 0) world1
      = Inr (FunctionModel_dtor (By_value adder) world1)"
    by (rule virtual_dtor_loaded) (rule world1_facts)
  moreover have "write_repr (m_buffer (bufs world1 0)) 0 (By_value big) = Inl buffer_overrun"
    by (rule write_repr_overrun) (simp add: world1_facts big_def MAX_BUFFER_SIZE_def)
  ultimately show ?thesis
    by (simp add: FunctionBuffer_assign_def world1_facts bind_r_def placement_new_def
        store_object_def buffer_address_def)
qed

subsection \<open>Moving and assigning from an empty buffer\<close>

lemma move_ctor_result:
  assumes "this \<noteq> other" "length (m_buffer (bufs w other)) = MAX_BUFFER_SIZE"
  shows "FunctionBuffer_move_ctor this other w =
     w\<lparr>bufs := (bufs w)
        (this := \<lparr>m_buffer = m_buffer (bufs w other), m_func = Some (buffer_address this)\<rparr>,
         other := (bufs w other)\<lparr>m_func := None\<rparr>)\<rparr>"
proof -
  have "std_copy (m_buffer (bufs w other)) MAX_BUFFER_SIZE (m_buffer raw_storage)
          = m_buffer (bufs w other)"
    by (rule std_copy_whole) (simp_all add: assms)
  then show ?thesis
    using assms(1)
    by (simp add: FunctionBuffer_move_ctor_def set_m_func_def set_m_buffer_def Let_def)
qed

text \<open>
  Claim C5. In \<open>world1\<close> the buffer at 0 is moved into a new buffer at 2, so the buffer at 0
  is empty. Move construction of a buffer at 3 from the empty buffer at 0 leaves the handle
  of the buffer at 3 non-null: invoking it does not throw the empty-buffer error but runs
  the bytes the move left behind, and destroying the buffers at 2 and at 3 runs the
  destructor of the one callable that was ever constructed twice. Copy assignment and move
  assignment from the empty buffer at 0 into a buffer constructed at 3 leave that buffer's
  handle non-null as well.
\<close>

theorem move_from_empty_is_not_empty:
  "\<not> FunctionBuffer_bool 0 (FunctionBuffer_move_ctor 2 0 world1)
   \<and> FunctionBuffer_bool 3 (FunctionBuffer_move_ctor 3 0 (FunctionBuffer_move_ctor 2 0 world1))
   \<and> observe (FunctionBuffer_call 3 5
                (FunctionBuffer_move_ctor 3 0 (FunctionBuffer_move_ctor 2 0 world1)))
       = Inr (Inr 15, 0)
   \<and> map_sum id trace
        (bind_r (FunctionBuffer_dtor 2
                   (FunctionBuffer_move_ctor 3 0 (FunctionBuffer_move_ctor 2 0 world1)))
           (FunctionBuffer_dtor 3))
       = Inr [Move_constructed 1, Destroyed 1, Destroyed 1]
   \<and> map_sum id (FunctionBuffer_bool 3)
        (bind_r (FunctionBuffer_ctor 3 (Rvalue doubler) (FunctionBuffer_move_ctor 2 0 world1))
           (FunctionBuffer_copy_assign 3 0)) = Inr True
   \<and> map_sum id (FunctionBuffer_bool 3)
        (bind_r (FunctionBuffer_ctor 3 (Rvalue doubler) (FunctionBuffer_move_ctor 2 0 world1))
           (FunctionBuffer_move_assign 3 0)) = Inr True"
proof -
  let ?wm = "FunctionBuffer_move_ctor 2 0 world1"
  let ?w4 = "FunctionBuffer_move_ctor 3 0 ?wm"
  have wm: "?wm = world1\<lparr>bufs := (bufs world1)
        (2 := \<lparr>m_buffer = m_buffer (bufs world1 0), m_func = Some (buffer_address 2)\<rparr>,
         0 := (bufs world1 0)\<lparr>m_func := None\<rparr>)\<rparr>"
    by (rule move_ctor_result) (simp_all add: world1_facts)
  have m0: "m_func (bufs ?wm 0) = None" "m_buffer (bufs ?wm 0) = m_buffer (bufs world1 0)"
    "m_func (bufs ?wm 2) = Some (buffer_address 2)"
    "m_buffer (bufs ?wm 2) = m_buffer (bufs world1 0)"
    "trace ?wm = [Move_constructed 1]" "env ?wm = 0"
    unfolding wm by (simp_all add: world1_facts)
  have a: "\<not> FunctionBuffer_bool 0 ?wm" by (simp add: FunctionBuffer_bool_def m0)
  have w4: "?w4 = ?wm\<lparr>bufs := (bufs ?wm)
        (3 := \<lparr>m_buffer = m_buffer (bufs ?wm 0), m_func = Some (buffer_address 3)\<rparr>,
         0 := (bufs ?wm 0)\<lparr>m_func := None\<rparr>)\<rparr>"
    by (rule move_ctor_result) (simp_all add: m0 world1_facts)
  have h3: "m_func (bufs ?w4 3) = Some (buffer_address 3)"
    and h2: "m_func (bufs ?w4 2) = Some (buffer_address 2)"
    and b3: "m_buffer (bufs ?w4 3) = m_buffer (bufs world1 0)"
    and b2: "m_buffer (bufs ?w4 2) = m_buffer (bufs world1 0)"
    and t4: "trace ?w4 = [Move_constructed 1]" and e4: "env ?w4 = 0"
    unfolding w4 by (simp_all add: m0)
  have l3: "load_object ?w4 (buffer_address 3) = Inr (By_value adder)"
    using world1_facts(3) b3 by (simp add: load_object_def buffer_address_def)
  have l2: "load_object ?w4 (buffer_address 2) = Inr (By_value adder)"
    using world1_facts(3) b2 by (simp add: load_object_def buffer_address_def)
  have b: "FunctionBuffer_bool 3 ?w4" by (simp add: FunctionBuffer_bool_def h3)
  have c: "observe (FunctionBuffer_call 3 5 ?w4) = Inr (Inr 15, 0)"
    using call_By_value [OF h3 l3, of 5] by (simp add: invoke_def adder_def e4)
  have d2: "FunctionBuffer_dtor 2 ?w4 = Inr (FunctionModel_dtor (By_value adder) ?w4)"
    using h2 l2 by (simp add: FunctionBuffer_dtor_def virtual_dtor_loaded)
  have l3': "load_object (FunctionModel_dtor (By_value adder) ?w4) (buffer_address 3)
                = Inr (By_value adder)"
    using l3 by (simp add: load_object_def)
  have d3: "FunctionBuffer_dtor 3 (FunctionModel_dtor (By_value adder) ?w4)
        = Inr (FunctionModel_dtor (By_value adder) (FunctionModel_dtor (By_value adder) ?w4))"
    using h3 l3'
    by (simp add: FunctionBuffer_dtor_def virtual_dtor_loaded del: FunctionModel_dtor.simps)
  have d: "map_sum id trace (bind_r (FunctionBuffer_dtor 2 ?w4) (FunctionBuffer_dtor 3))
       = Inr [Move_constructed 1, Destroyed 1, Destroyed 1]"
    unfolding d2 bind_r_def
    by (simp add: d3 del: FunctionModel_dtor.simps) (simp add: t4 adder_def)
  let ?w3 = "?wm\<lparr>bufs := (bufs ?wm)(3 :=
              \<lparr>m_buffer = object_repr (By_value doubler)
                            @ drop (sizeof_model doubler) (m_buffer raw_storage),
               m_func = Some (buffer_address 3)\<rparr>),
            trace := trace ?wm @ [Move_constructed (ident doubler)]\<rparr>"
  have c3: "FunctionBuffer_ctor 3 (Rvalue doubler) ?wm = Inr ?w3"
    by (rule ctor_Rvalue) (simp_all add: doubler_def MAX_BUFFER_SIZE_def)
  have o3: "m_func (bufs ?w3 3) = Some (buffer_address 3)" by simp
  have lo3: "load_object ?w3 (buffer_address 3) = Inr (By_value doubler)"
    by (rule load_object_start
          [where rest = "drop (sizeof_model doubler) (m_buffer raw_storage)"])
       (simp_all add: doubler_def)
  have e: "map_sum id (FunctionBuffer_bool 3)
        (bind_r (FunctionBuffer_ctor 3 (Rvalue doubler) ?wm) (FunctionBuffer_copy_assign 3 0))
       = Inr True"
    unfolding c3 bind_r_def
    by (simp add: copy_assign_occupied [OF o3 lo3] FunctionBuffer_bool_def set_m_func_def
        del: FunctionModel_dtor.simps)
  have f: "map_sum id (FunctionBuffer_bool 3)
        (bind_r (FunctionBuffer_ctor 3 (Rvalue doubler) ?wm) (FunctionBuffer_move_assign 3 0))
       = Inr True"
    unfolding c3 bind_r_def
    by (simp add: move_assign_occupied [OF o3 lo3] FunctionBuffer_bool_def set_m_func_def
        del: FunctionModel_dtor.simps)
  from a b c d e f show ?thesis by blast
qed

subsection \<open>Lvalue arguments\<close>

text \<open>
  Claim C8. The caller owns \<open>doubler\<close> at address 7 and constructs a buffer from that
  lvalue. The adapter in the buffer is \<^verbatim>\<open>FunctionModel<L&>\<close>: it holds a reference to
  address 7, and no constructor of the callable has run. Invoking the buffer on 7 gives 14;
  after the caller has assigned \<open>adder\<close> to its object the same buffer gives 17; after the
  caller's object has gone the invocation goes through a dangling reference.
\<close>

theorem lvalue_is_held_by_reference:
  "bind_r (FunctionBuffer_ctor 0 (Lvalue 7) caller_world) (\<lambda>w. load_object w (buffer_address 0))
     = Inr (By_reference 7)
   \<and> map_sum id trace (FunctionBuffer_ctor 0 (Lvalue 7) caller_world) = Inr []
   \<and> observe (bind_r (FunctionBuffer_ctor 0 (Lvalue 7) caller_world) (FunctionBuffer_call 0 7))
       = Inr (Inr 14, 0)
   \<and> observe (bind_r (FunctionBuffer_ctor 0 (Lvalue 7) caller_world)
                (\<lambda>w. FunctionBuffer_call 0 7 (w\<lparr>objs := (objs w)(7 := Some adder)\<rparr>)))
       = Inr (Inr 17, 0)
   \<and> observe (bind_r (FunctionBuffer_ctor 0 (Lvalue 7) caller_world)
                (\<lambda>w. FunctionBuffer_call 0 7 (w\<lparr>objs := (objs w)(7 := None)\<rparr>)))
       = Inl dangling_reference"
proof -
  let ?w = "caller_world\<lparr>bufs := (bufs caller_world)(0 :=
              \<lparr>m_buffer = object_repr (By_reference 7) @ drop sizeof_ref_model (m_buffer raw_storage),
               m_func = Some (buffer_address 0)\<rparr>)\<rparr>"
  have c: "FunctionBuffer_ctor 0 (Lvalue 7) caller_world = Inr ?w" by (rule ctor_Lvalue)
  have l: "\<And>os. load_object (?w\<lparr>objs := os\<rparr>) (buffer_address 0) = Inr (By_reference 7)"
    by (rule load_object_start [where rest = "drop sizeof_ref_model (m_buffer raw_storage)"])
       (simp_all add: sizeof_ref_model_def)
  have l0: "load_object ?w (buffer_address 0) = Inr (By_reference 7)"
    by (rule load_object_start [where rest = "drop sizeof_ref_model (m_buffer raw_storage)"])
       (simp_all add: sizeof_ref_model_def)
  have t: "trace ?w = []" by (simp add: caller_world_def world0_def)
  have h: "\<And>os. m_func (bufs (?w\<lparr>objs := os\<rparr>) 0) = Some (buffer_address 0)" by simp
  have h0: "m_func (bufs ?w 0) = Some (buffer_address 0)" by simp
  have "objs ?w 7 = Some doubler" "env ?w = 0" by (simp_all add: caller_world_def world0_def)
  with call_By_reference [OF h0 l0, of doubler 7]
  have r1: "observe (FunctionBuffer_call 0 7 ?w) = Inr (Inr 14, 0)"
    by (simp add: invoke_def doubler_def)
  have "objs (?w\<lparr>objs := (objs ?w)(7 := Some adder)\<rparr>) 7 = Some adder"
    "env (?w\<lparr>objs := (objs ?w)(7 := Some adder)\<rparr>) = 0"
    by (simp_all add: caller_world_def world0_def)
  with call_By_reference [OF h l, of "(objs ?w)(7 := Some adder)" adder 7]
  have r2: "observe (FunctionBuffer_call 0 7 (?w\<lparr>objs := (objs ?w)(7 := Some adder)\<rparr>))
              = Inr (Inr 17, 0)"
    by (simp add: invoke_def adder_def)
  have "objs (?w\<lparr>objs := (objs ?w)(7 := None)\<rparr>) 7 = None" by simp
  with call_dangling [OF h l, of "(objs ?w)(7 := None)" 7]
  have r3: "observe (FunctionBuffer_call 0 7 (?w\<lparr>objs := (objs ?w)(7 := None)\<rparr>))
              = Inl dangling_reference"
    by (simp add: observe_def)
  show ?thesis unfolding c using l0 t r1 r2 r3 by (simp add: bind_r_def)
qed

end
